theory Spec2Isabelle
  imports Main "HOL-Library.Word"
begin

unbundle bit_operations_syntax

section \<open>The importers of libcucul (cucul/import.c)\<close>

text \<open>
  The file import.c turns a memory area into a canvas. It holds the entry point
  \<open>cucul_import_canvas\<close>, the three decoders \<open>import_caca\<close>, \<open>import_text\<close> and
  \<open>import_ansi\<close>, and the two helpers of the ANSI decoder, \<open>parse_tuple\<close> and
  \<open>manage_modifiers\<close>.

  Conventions of the embedding.
  \<^item> A memory area \<open>(data, size)\<close> is a list of bytes; \<open>size\<close> is its length. The C type of
    \<open>size\<close> is \<open>unsigned int\<close>; where the code computes with it in 32 bits the model converts
    the length with \<open>of_nat\<close>. Indices into the area are natural numbers (areas are assumed
    shorter than \<open>2^31\<close> bytes, so that no index wraps).
  \<^item> \<open>int\<close> and \<open>unsigned int\<close> variables are 32-bit words: \<open>+\<close>, \<open>-\<close> and \<open>*\<close> wrap around,
    an unsigned comparison is the order of words, a signed one compares \<open>sint\<close>.
  \<^item> \<open>return NULL\<close> is the value \<open>Inl NullReturn\<close>. The other errors are the places where the
    C code leaves defined behaviour: a read past the end of the input, a write past the end
    of one of the two 1024-entry stack arrays, a read of an array cell never written, and
    the use of a null canvas.
\<close>

type_synonym byte = "8 word"

datatype error =
    NullReturn
  | NullDereference
  | ReadOutOfBounds nat
  | ArgvOutOfBounds nat
  | NbrOutOfBounds nat
  | UninitialisedRead

text \<open>A bounds-checked read of byte \<open>i\<close> of a memory area.\<close>

definition rd :: "byte list \<Rightarrow> nat \<Rightarrow> error + byte" where
  "rd buf i = (if i < length buf then Inr (buf ! i) else Inl (ReadOutOfBounds i))"

subsection \<open>The canvas, an external collaborator\<close>

text \<open>
  The canvas (\<open>cucul_canvas_t\<close>) and its operations live in other files of the library,
  which are not among the sources. The decoders never read a canvas back (their control
  flow depends on their own local variables only), so a canvas is modelled by the sequence
  of operations the decoder has applied to it, in order, each with its arguments as the
  code passes them. \<open>StoreChar\<close> and \<open>StoreAttr\<close> are the direct stores
  \<open>cv->chars[n] = v\<close> and \<open>cv->attr[n] = v\<close> of \<open>import_caca\<close>.

  \<open>_cucul_cp437_to_utf32\<close> is a table lookup whose table is not among the sources either:
  a character written through it is kept as \<open>Cp437 b\<close>, the code point that the table
  assigns to byte \<open>b\<close>.
\<close>

datatype glyph = Utf32 "32 word" | Cp437 byte

datatype cv_call =
    CreateCanvas "32 word" "32 word"
  | SetColor byte byte
  | SetCanvasSize "32 word" "32 word"
  | PutChar "32 word" "32 word" byte
  | PutChar32 "32 word" "32 word" glyph
  | StoreChar "32 word" "32 word"
  | StoreAttr "32 word" "32 word"

type_synonym cucul_canvas = "cv_call list"

text \<open>
  \<open>cucul_create_canvas\<close> returns a fresh canvas, or NULL when the allocation fails. The
  model has no memory limit: the allocation succeeds.
\<close>

definition cucul_create_canvas :: "32 word \<Rightarrow> 32 word \<Rightarrow> cucul_canvas option" where
  "cucul_create_canvas w h = Some [CreateCanvas w h]"

definition cucul_set_color :: "cucul_canvas \<Rightarrow> byte \<Rightarrow> byte \<Rightarrow> cucul_canvas" where
  "cucul_set_color cv fg bg = cv @ [SetColor fg bg]"

definition cucul_set_canvas_size :: "cucul_canvas \<Rightarrow> 32 word \<Rightarrow> 32 word \<Rightarrow> cucul_canvas" where
  "cucul_set_canvas_size cv w h = cv @ [SetCanvasSize w h]"

definition cucul_putchar :: "cucul_canvas \<Rightarrow> 32 word \<Rightarrow> 32 word \<Rightarrow> byte \<Rightarrow> cucul_canvas" where
  "cucul_putchar cv x y ch = cv @ [PutChar x y ch]"

definition cucul_putchar32 :: "cucul_canvas \<Rightarrow> 32 word \<Rightarrow> 32 word \<Rightarrow> glyph \<Rightarrow> cucul_canvas" where
  "cucul_putchar32 cv x y ch = cv @ [PutChar32 x y ch]"

text \<open>
  The colour constants are declared in cucul.h, which is not among the sources; these are
  the values of the library's public header. The base palette is 0 to 7, its bright
  variants 8 to 15.
\<close>

definition CUCUL_COLOR_BLACK :: byte where "CUCUL_COLOR_BLACK = 0x00"
definition CUCUL_COLOR_BLUE :: byte where "CUCUL_COLOR_BLUE = 0x01"
definition CUCUL_COLOR_GREEN :: byte where "CUCUL_COLOR_GREEN = 0x02"
definition CUCUL_COLOR_CYAN :: byte where "CUCUL_COLOR_CYAN = 0x03"
definition CUCUL_COLOR_RED :: byte where "CUCUL_COLOR_RED = 0x04"
definition CUCUL_COLOR_MAGENTA :: byte where "CUCUL_COLOR_MAGENTA = 0x05"
definition CUCUL_COLOR_BROWN :: byte where "CUCUL_COLOR_BROWN = 0x06"
definition CUCUL_COLOR_LIGHTGRAY :: byte where "CUCUL_COLOR_LIGHTGRAY = 0x07"
definition CUCUL_COLOR_DEFAULT :: byte where "CUCUL_COLOR_DEFAULT = 0x10"
definition CUCUL_COLOR_TRANSPARENT :: byte where "CUCUL_COLOR_TRANSPARENT = 0x20"

lemmas color_defs =
  CUCUL_COLOR_BLACK_def CUCUL_COLOR_BLUE_def CUCUL_COLOR_GREEN_def CUCUL_COLOR_CYAN_def
  CUCUL_COLOR_RED_def CUCUL_COLOR_MAGENTA_def CUCUL_COLOR_BROWN_def
  CUCUL_COLOR_LIGHTGRAY_def CUCUL_COLOR_DEFAULT_def CUCUL_COLOR_TRANSPARENT_def

subsection \<open>import_caca: the native binary decoder\<close>

text \<open>
  The big-endian composition
  \<open>((uint32_t)b0 << 24) | ((uint32_t)b1 << 16) | ((uint32_t)b2 << 8) | (uint32_t)b3\<close>,
  which the function writes out four times.
\<close>

definition be32 :: "byte \<Rightarrow> byte \<Rightarrow> byte \<Rightarrow> byte \<Rightarrow> 32 word" where
  "be32 b0 b1 b2 b3 =
     push_bit 24 (ucast b0) OR push_bit 16 (ucast b1) OR push_bit 8 (ucast b2) OR ucast b3"

text \<open>
  Four checked reads at the indices \<open>k\<close>, \<open>k + 1\<close>, \<open>k + 2\<close>, \<open>k + 3\<close>, each computed in
  32-bit unsigned arithmetic as the index expression \<open>16 + 0 + 8 * n\<close> is in C.
\<close>

definition rd_be32 :: "byte list \<Rightarrow> 32 word \<Rightarrow> error + 32 word" where
  "rd_be32 buf k =
     (case rd buf (unat k) of Inl e \<Rightarrow> Inl e | Inr b0 \<Rightarrow>
      case rd buf (unat (k + 1)) of Inl e \<Rightarrow> Inl e | Inr b1 \<Rightarrow>
      case rd buf (unat (k + 2)) of Inl e \<Rightarrow> Inl e | Inr b2 \<Rightarrow>
      case rd buf (unat (k + 3)) of Inl e \<Rightarrow> Inl e | Inr b3 \<Rightarrow>
      Inr (be32 b0 b1 b2 b3))"

text \<open>
  The loop \<open>for(n = height * width; n--; )\<close>: test, decrement, then the body, which
  sees the decremented \<open>n\<close>, here \<open>n - 1\<close>.
\<close>

function caca_fill :: "byte list \<Rightarrow> 32 word \<Rightarrow> cucul_canvas \<Rightarrow> error + cucul_canvas" where
  "caca_fill buf n cv =
     (if n = 0 then Inr cv
      else
        (case rd_be32 buf (16 + 0 + 8 * (n - 1)) of Inl e \<Rightarrow> Inl e | Inr c \<Rightarrow>
         (case rd_be32 buf (16 + 4 + 8 * (n - 1)) of Inl e \<Rightarrow> Inl e | Inr a \<Rightarrow>
          caca_fill buf (n - 1) (cv @ [StoreChar (n - 1) c, StoreAttr (n - 1) a]))))"
  by pat_completeness auto
termination
  by (relation "measure (\<lambda>(buf, n, cv). unat n)") (auto simp: unat_minus_one unat_gt_0)

declare caca_fill.simps [simp del]

fun import_caca :: "byte list \<Rightarrow> error + cucul_canvas" where
  "import_caca buf =
     (let size = (of_nat (length buf) :: 32 word) in
      if size < 16 then Inl NullReturn
      else if buf ! 0 \<noteq> 0x43 \<or> buf ! 1 \<noteq> 0x41 \<or> buf ! 2 \<noteq> 0x43 \<or> buf ! 3 \<noteq> 0x41
        then Inl NullReturn
      else if buf ! 4 \<noteq> 0x43 \<or> buf ! 5 \<noteq> 0x41 \<or> buf ! 6 \<noteq> 0x4E \<or> buf ! 7 \<noteq> 0x56
        then Inl NullReturn
      else
        let width = be32 (buf ! 8) (buf ! 9) (buf ! 10) (buf ! 11);
            height = be32 (buf ! 12) (buf ! 13) (buf ! 14) (buf ! 15)
        in
        if width = 0 \<or> height = 0 then Inl NullReturn
        else if size \<noteq> 16 + width * height * 8 then Inl NullReturn
        else
          case cucul_create_canvas width height of
            None \<Rightarrow> Inl NullReturn
          | Some cv \<Rightarrow> caca_fill buf (height * width) cv)"

declare import_caca.simps [simp del]

subsection \<open>import_text: the plain text decoder\<close>

record text_state =
  t_cv :: cucul_canvas
  t_width :: "32 word"
  t_height :: "32 word"
  t_x :: "32 word"
  t_y :: "32 word"

text \<open>
  The second half of the loop body: the canvas is enlarged when \<open>x\<close> or \<open>y\<close> is
  outside it, then the character is written. All four counters are \<open>unsigned int\<close>.
\<close>

definition text_paste :: "byte \<Rightarrow> text_state \<Rightarrow> text_state" where
  "text_paste ch s =
     (let s1 =
        (if t_width s \<le> t_x s \<or> t_height s \<le> t_y s then
           let w = (if t_width s \<le> t_x s then t_x s + 1 else t_width s);
               h = (if t_height s \<le> t_y s then t_y s + 1 else t_height s)
           in s\<lparr>t_width := w, t_height := h,
                 t_cv := cucul_set_canvas_size (t_cv s) w h\<rparr>
         else s)
      in s1\<lparr>t_cv := cucul_putchar (t_cv s1) (t_x s1) (t_y s1) ch, t_x := t_x s1 + 1\<rparr>)"

text \<open>One round of the loop per byte (\<open>ch = *text++\<close>).\<close>

fun import_text_loop :: "byte list \<Rightarrow> text_state \<Rightarrow> text_state" where
  "import_text_loop [] s = s"
| "import_text_loop (ch # text) s =
     (if ch = 0x0D then import_text_loop text s
      else if ch = 0x0A then import_text_loop text (s\<lparr>t_x := 0, t_y := t_y s + 1\<rparr>)
      else import_text_loop text (text_paste ch s))"

text \<open>
  The canvas returned by \<open>cucul_create_canvas\<close> is used without a test for NULL.
\<close>

definition import_text :: "byte list \<Rightarrow> error + cucul_canvas" where
  "import_text buf =
     (case cucul_create_canvas 1 1 of
        None \<Rightarrow> Inl NullDereference
      | Some cv0 \<Rightarrow>
          let cv = cucul_set_color cv0 CUCUL_COLOR_DEFAULT CUCUL_COLOR_TRANSPARENT
          in Inr (t_cv (import_text_loop buf
                \<lparr>t_cv = cv, t_width = 1, t_height = 1, t_x = 0, t_y = 0\<rparr>)))"

subsection \<open>The helpers of the ANSI decoder\<close>

definition IS_ALPHA :: "byte \<Rightarrow> bool" where
  "IS_ALPHA x = (0x41 \<le> x \<and> x \<le> 0x7A)"

definition END_ARG :: "32 word" where
  "END_ARG = 0x1337"

text \<open>
  \<open>atoi\<close> of the C library, on the bytes of a string (terminator excluded): white space is
  skipped, then an optional sign, then decimal digits. The value is converted to
  \<open>unsigned int\<close> by the assignment \<open>ret[t] = atoi(...)\<close>, that is reduced modulo \<open>2^32\<close>.
  (C leaves \<open>atoi\<close> undefined when the number does not fit an \<open>int\<close>; the model reduces it
  modulo \<open>2^32\<close> all the same.)
\<close>

definition isspace_c :: "byte \<Rightarrow> bool" where
  "isspace_c b = (b = 0x20 \<or> (0x09 \<le> b \<and> b \<le> 0x0D))"

definition isdigit_c :: "byte \<Rightarrow> bool" where
  "isdigit_c b = (0x30 \<le> b \<and> b \<le> 0x39)"

fun atoi_digits :: "byte list \<Rightarrow> int \<Rightarrow> int" where
  "atoi_digits [] acc = acc"
| "atoi_digits (b # bs) acc =
     (if isdigit_c b then atoi_digits bs (acc * 10 + (uint b - 48)) else acc)"

definition atoi :: "byte list \<Rightarrow> 32 word" where
  "atoi s =
     (case dropWhile isspace_c s of
        [] \<Rightarrow> 0
      | c # r \<Rightarrow>
          if c = 0x2D then word_of_int (- atoi_digits r 0)
          else if c = 0x2B then word_of_int (atoi_digits r 0)
          else word_of_int (atoi_digits (c # r) 0))"

text \<open>
  The two stack arrays \<open>unsigned int argv[1024]\<close> (of \<open>import_ansi\<close>) and
  \<open>unsigned char nbr[1024]\<close> (of \<open>parse_tuple\<close>) are not initialised: a cell holds a value
  only once it has been written. Both are maps from index to value; a store checks the
  capacity.
\<close>

type_synonym argv_array = "nat \<rightharpoonup> 32 word"
type_synonym nbr_array = "nat \<rightharpoonup> byte"

definition argv_store :: "argv_array \<Rightarrow> nat \<Rightarrow> 32 word \<Rightarrow> error + argv_array" where
  "argv_store ret t v = (if t < 1024 then Inr (ret(t \<mapsto> v)) else Inl (ArgvOutOfBounds t))"

definition argv_load :: "argv_array \<Rightarrow> nat \<Rightarrow> error + 32 word" where
  "argv_load ret t =
     (if t < 1024 then (case ret t of None \<Rightarrow> Inl UninitialisedRead | Some v \<Rightarrow> Inr v)
      else Inl (ArgvOutOfBounds t))"

definition nbr_store :: "nbr_array \<Rightarrow> nat \<Rightarrow> byte \<Rightarrow> error + nbr_array" where
  "nbr_store nbr j b = (if j < 1024 then Inr (nbr(j \<mapsto> b)) else Inl (NbrOutOfBounds j))"

text \<open>The string that \<open>atoi((char*)nbr)\<close> reads: the bytes of \<open>nbr\<close> up to the first zero.\<close>

function nbr_string :: "nbr_array \<Rightarrow> nat \<Rightarrow> error + byte list" where
  "nbr_string nbr k =
     (if 1024 \<le> k then Inl (NbrOutOfBounds k)
      else
        (case nbr k of
           None \<Rightarrow> Inl UninitialisedRead
         | Some b \<Rightarrow>
             if b = 0 then Inr []
             else (case nbr_string nbr (k + 1) of Inl e \<Rightarrow> Inl e | Inr s \<Rightarrow> Inr (b # s))))"
  by pat_completeness auto
termination
  by (relation "measure (\<lambda>(nbr, k). 1024 - k)") auto

declare nbr_string.simps [simp del]

definition atoi_nbr :: "nbr_array \<Rightarrow> error + 32 word" where
  "atoi_nbr nbr = (case nbr_string nbr 0 of Inl e \<Rightarrow> Inl e | Inr s \<Rightarrow> Inr (atoi s))"

text \<open>
  The loop of \<open>parse_tuple\<close>. \<open>i\<close>, \<open>j\<close> and \<open>t\<close> only count up from 0, \<open>sz\<close> (the parameter \<open>size\<close>) is
  an \<open>int\<close>. The result is the array \<open>ret\<close> as the loop leaves it, and the returned \<open>int\<close>.
\<close>

function parse_tuple_loop ::
  "byte list \<Rightarrow> int \<Rightarrow> nat \<Rightarrow> nat \<Rightarrow> nat \<Rightarrow> nbr_array \<Rightarrow> argv_array \<Rightarrow> error + (argv_array \<times> int)"
where
  "parse_tuple_loop buffer sz i j t nbr ret =
     (if \<not> int i < sz then Inr (ret, sz)
      else
        (case rd buffer i of
           Inl e \<Rightarrow> Inl e
         | Inr b \<Rightarrow>
             if IS_ALPHA b then
               (case (if j \<noteq> 0 then
                        (case atoi_nbr nbr of
                           Inl e \<Rightarrow> Inl e
                         | Inr v \<Rightarrow>
                             (case argv_store ret t v of
                                Inl e \<Rightarrow> Inl e
                              | Inr ret1 \<Rightarrow> Inr (ret1, t + 1)))
                      else Inr (ret, t)) of
                  Inl e \<Rightarrow> Inl e
                | Inr (ret1, t1) \<Rightarrow>
                    (case argv_store ret1 t1 END_ARG of
                       Inl e \<Rightarrow> Inl e
                     | Inr ret2 \<Rightarrow> Inr (ret2, int i)))
             else if b \<noteq> 0x3B then
               (case nbr_store nbr j b of
                  Inl e \<Rightarrow> Inl e
                | Inr nbr1 \<Rightarrow>
                    (case nbr_store nbr1 (j + 1) 0 of
                       Inl e \<Rightarrow> Inl e
                     | Inr nbr2 \<Rightarrow> parse_tuple_loop buffer sz (i + 1) (j + 1) t nbr2 ret))
             else
               (case atoi_nbr nbr of
                  Inl e \<Rightarrow> Inl e
                | Inr v \<Rightarrow>
                    (case argv_store ret t v of
                       Inl e \<Rightarrow> Inl e
                     | Inr ret1 \<Rightarrow>
                         (case argv_store ret1 (t + 1) END_ARG of
                            Inl e \<Rightarrow> Inl e
                          | Inr ret2 \<Rightarrow>
                              parse_tuple_loop buffer sz (i + 1) 0 (t + 1) nbr ret2)))))"
  by pat_completeness auto
termination
  by (relation "measure (\<lambda>(buffer, sz, i, j, t, nbr, ret). nat (sz - int i))") auto

declare parse_tuple_loop.simps [simp del]

definition parse_tuple :: "argv_array \<Rightarrow> byte list \<Rightarrow> int \<Rightarrow> error + (argv_array \<times> int)" where
  "parse_tuple ret buffer sz =
     (case argv_store ret 0 END_ARG of
        Inl e \<Rightarrow> Inl e
      | Inr ret0 \<Rightarrow> parse_tuple_loop buffer sz 0 0 0 Map.empty ret0)"

text \<open>The local variables of \<open>import_ansi\<close> that live across the rounds of its loop.\<close>

record ansi_state =
  a_cv :: cucul_canvas
  a_x :: "32 word"
  a_y :: "32 word"
  a_width :: "32 word"
  a_height :: "32 word"
  a_save_x :: "32 word"
  a_save_y :: "32 word"
  a_fg :: byte
  a_bg :: byte
  a_save_fg :: byte
  a_save_bg :: byte
  a_bold :: byte
  a_reverse :: byte

definition ansi2cucul :: "byte list" where
  "ansi2cucul =
     [CUCUL_COLOR_BLACK, CUCUL_COLOR_RED, CUCUL_COLOR_GREEN, CUCUL_COLOR_BROWN,
      CUCUL_COLOR_BLUE, CUCUL_COLOR_MAGENTA, CUCUL_COLOR_CYAN, CUCUL_COLOR_LIGHTGRAY]"

text \<open>
  \<open>manage_modifiers\<close> receives the six colour variables by pointer; the model passes the
  state and returns it updated. Its first argument is an \<open>int\<close>.
\<close>

definition manage_modifiers :: "32 word \<Rightarrow> ansi_state \<Rightarrow> ansi_state" where
  "manage_modifiers i s =
     (if 30 \<le> sint i \<and> sint i \<le> 37 then s\<lparr>a_fg := ansi2cucul ! nat (sint i - 30)\<rparr>
      else if 40 \<le> sint i \<and> sint i \<le> 47 then s\<lparr>a_bg := ansi2cucul ! nat (sint i - 40)\<rparr>
      else if 90 \<le> sint i \<and> sint i \<le> 97 then s\<lparr>a_fg := ansi2cucul ! nat (sint i - 90) + 8\<rparr>
      else if 100 \<le> sint i \<and> sint i \<le> 107 then s\<lparr>a_bg := ansi2cucul ! nat (sint i - 100) + 8\<rparr>
      else if i = 0 then
        s\<lparr>a_fg := CUCUL_COLOR_DEFAULT, a_bg := CUCUL_COLOR_DEFAULT, a_bold := 0, a_reverse := 0\<rparr>
      else if i = 1 then s\<lparr>a_bold := 1\<rparr>
      else if i = 4 then s
      else if i = 5 then s
      else if i = 7 then s\<lparr>a_reverse := 1\<rparr>
      else if i = 8 then
        s\<lparr>a_save_fg := a_fg s, a_save_bg := a_bg s,
          a_fg := CUCUL_COLOR_TRANSPARENT, a_bg := CUCUL_COLOR_TRANSPARENT\<rparr>
      else if i = 28 then s\<lparr>a_fg := a_save_fg s, a_bg := a_save_bg s\<rparr>
      else if i = 39 then s\<lparr>a_fg := CUCUL_COLOR_DEFAULT\<rparr>
      else if i = 49 then s\<lparr>a_bg := CUCUL_COLOR_DEFAULT\<rparr>
      else s)"

subsection \<open>import_ansi: the ANSI decoder\<close>

text \<open>
  The scan \<open>for(j = i; j < (int)size; j++) if(IS_ALPHA(buffer[j])) { c = buffer[j]; break; }\<close>
  for the final byte of the command; \<open>c\<close> stays 0 when there is none.
\<close>

function find_final :: "byte list \<Rightarrow> nat \<Rightarrow> byte" where
  "find_final buffer j =
     (if j < length buffer
      then (if IS_ALPHA (buffer ! j) then buffer ! j else find_final buffer (j + 1))
      else 0)"
  by pat_completeness auto
termination
  by (relation "measure (\<lambda>(buffer, j). length buffer - j)") auto

declare find_final.simps [simp del]

text \<open>The count \<open>while(argv[argc] != END_ARG) argc++\<close>.\<close>

function count_args :: "argv_array \<Rightarrow> nat \<Rightarrow> error + nat" where
  "count_args argv argc =
     (if 1024 \<le> argc then Inl (ArgvOutOfBounds argc)
      else
        (case argv argc of
           None \<Rightarrow> Inl UninitialisedRead
         | Some v \<Rightarrow> if v \<noteq> END_ARG then count_args argv (argc + 1) else Inr argc))"
  by pat_completeness auto
termination
  by (relation "measure (\<lambda>(argv, argc). 1024 - argc)") auto

declare count_args.simps [simp del]

text \<open>
  Case \<open>'K'\<close>: \<open>for(j = x; j < width; j++) _cucul_putchar32(cv, j, y, (uint32_t)' ')\<close>,
  a signed comparison.
\<close>

function clear_eol :: "cucul_canvas \<Rightarrow> 32 word \<Rightarrow> 32 word \<Rightarrow> 32 word \<Rightarrow> cucul_canvas" where
  "clear_eol cv j width y =
     (if sint j < sint width
      then clear_eol (cucul_putchar32 cv j y (Utf32 0x20)) (j + 1) width y
      else cv)"
  by pat_completeness auto
termination
proof (relation "measure (\<lambda>(cv, j, width, y). nat (sint width - sint j))")
  show "wf (measure (\<lambda>(cv, j, width, y). nat (sint width - sint j)))" by simp
next
  fix cv :: cucul_canvas and j width y :: "32 word"
  assume a: "sint j < sint width"
  have "sint width < 2 ^ 31" using sint_lt [of width] by simp
  moreover have "- (2 ^ 31) \<le> sint j" using sint_ge [of j] by simp
  ultimately have "- (2 ^ 31) \<le> sint j + 1" "sint j + 1 < 2 ^ 31" using a by auto
  then have "sint (j + 1) = sint j + 1"
    by (simp add: sint_word_ariths signed_take_bit_int_eq_self)
  with a show "((cucul_putchar32 cv j y (Utf32 0x20), j + 1, width, y), (cv, j, width, y))
        \<in> measure (\<lambda>(cv, j, width, y). nat (sint width - sint j))"
    by simp
qed

declare clear_eol.simps [simp del]

text \<open>
  Case \<open>'m'\<close>, first half:
  \<open>for(j = 0; j < (int)argc; j++) manage_modifiers(argv[j], ...)\<close>.
\<close>

function apply_modifiers :: "argv_array \<Rightarrow> nat \<Rightarrow> nat \<Rightarrow> ansi_state \<Rightarrow> error + ansi_state" where
  "apply_modifiers argv j argc s =
     (if j < argc then
        (case argv_load argv j of
           Inl e \<Rightarrow> Inl e
         | Inr v \<Rightarrow> apply_modifiers argv (j + 1) argc (manage_modifiers v s))
      else Inr s)"
  by pat_completeness auto
termination
  by (relation "measure (\<lambda>(argv, j, argc, s). argc - j)") auto

declare apply_modifiers.simps [simp del]

text \<open>
  Case \<open>'m'\<close>, second half: the promotion of \<open>fg\<close> and \<open>bg\<close> under \<open>bold\<close>, which
  assigns to the variables \<open>fg\<close> and \<open>bg\<close> themselves, and the call of \<open>cucul_set_color\<close>.
\<close>

definition set_sgr_color :: "ansi_state \<Rightarrow> ansi_state" where
  "set_sgr_color s =
     (let s1 = (if a_bold s \<noteq> 0 \<and> a_fg s < 8 then s\<lparr>a_fg := a_fg s + 8\<rparr> else s);
          s2 = (if a_bold s1 \<noteq> 0 \<and> a_bg s1 < 8 then s1\<lparr>a_bg := a_bg s1 + 8\<rparr> else s1)
      in if a_reverse s2 \<noteq> 0
         then s2\<lparr>a_cv := cucul_set_color (a_cv s2) (a_bg s2) (a_fg s2)\<rparr>
         else s2\<lparr>a_cv := cucul_set_color (a_cv s2) (a_fg s2) (a_bg s2)\<rparr>)"

text \<open>The argument \<open>argc ? argv[0] : 1\<close> of the four cursor movements.\<close>

definition arg_or_1 :: "nat \<Rightarrow> argv_array \<Rightarrow> error + 32 word" where
  "arg_or_1 argc argv = (if argc \<noteq> 0 then argv_load argv 0 else Inr 1)"

text \<open>
  The \<open>switch(c)\<close>. \<open>x\<close> and \<open>y\<close> are \<open>int\<close>, the arguments \<open>unsigned int\<close>: sums and
  differences are taken modulo \<open>2^32\<close> and read back as \<open>int\<close>.
\<close>

definition ansi_command :: "byte \<Rightarrow> nat \<Rightarrow> argv_array \<Rightarrow> ansi_state \<Rightarrow> error + ansi_state" where
  "ansi_command c argc argv s =
     (if c = 0x66 \<or> c = 0x48 then
        (if argc = 0 then Inr (s\<lparr>a_x := 0, a_y := 0\<rparr>)
         else if argc = 1 then
           (case argv_load argv 0 of
              Inl e \<Rightarrow> Inl e
            | Inr v0 \<Rightarrow> Inr (s\<lparr>a_y := v0 - 1, a_x := 0\<rparr>))
         else if argc = 2 then
           (case argv_load argv 0 of
              Inl e \<Rightarrow> Inl e
            | Inr v0 \<Rightarrow>
                (case argv_load argv 1 of
                   Inl e \<Rightarrow> Inl e
                 | Inr v1 \<Rightarrow> Inr (s\<lparr>a_y := v0 - 1, a_x := v1 - 1\<rparr>)))
         else Inr s)
      else if c = 0x41 then
        (case arg_or_1 argc argv of
           Inl e \<Rightarrow> Inl e
         | Inr n \<Rightarrow>
             let y = a_y s - n in Inr (s\<lparr>a_y := (if sint y < 0 then 0 else y)\<rparr>))
      else if c = 0x42 then
        (case arg_or_1 argc argv of
           Inl e \<Rightarrow> Inl e
         | Inr n \<Rightarrow> Inr (s\<lparr>a_y := a_y s + n\<rparr>))
      else if c = 0x43 then
        (case arg_or_1 argc argv of
           Inl e \<Rightarrow> Inl e
         | Inr n \<Rightarrow> Inr (s\<lparr>a_x := a_x s + n\<rparr>))
      else if c = 0x44 then
        (case arg_or_1 argc argv of
           Inl e \<Rightarrow> Inl e
         | Inr n \<Rightarrow>
             let x = a_x s - n in Inr (s\<lparr>a_x := (if sint x < 0 then 0 else x)\<rparr>))
      else if c = 0x73 then Inr (s\<lparr>a_save_x := a_x s, a_save_y := a_y s\<rparr>)
      else if c = 0x75 then Inr (s\<lparr>a_x := a_save_x s, a_y := a_save_y s\<rparr>)
      else if c = 0x4A then
        (case argv_load argv 0 of
           Inl e \<Rightarrow> Inl e
         | Inr v0 \<Rightarrow> Inr (if v0 = 2 then s\<lparr>a_x := 0, a_y := 0\<rparr> else s))
      else if c = 0x4B then
        Inr (s\<lparr>a_cv := clear_eol (a_cv s) (a_x s) (a_width s) (a_y s), a_x := a_width s\<rparr>)
      else if c = 0x6D then
        (case apply_modifiers argv 0 argc s of
           Inl e \<Rightarrow> Inl e
         | Inr s1 \<Rightarrow> Inr (set_sgr_color s1))
      else Inr s)"

text \<open>
  The body of \<open>if(buffer[i] == '\x1b' && buffer[i + 1] == '[')\<close>, entered with \<open>i\<close>
  already past the two bytes. \<open>argv\<close> is a fresh array. The result is \<open>skip\<close>, an
  \<open>unsigned int\<close> that starts at 1 and receives the \<open>int\<close> that \<open>parse_tuple\<close> returns,
  and the state after the command.
\<close>

definition ansi_escape :: "byte list \<Rightarrow> nat \<Rightarrow> ansi_state \<Rightarrow> error + (32 word \<times> ansi_state)" where
  "ansi_escape buffer i s =
     (let c = find_final buffer i in
      case parse_tuple Map.empty (drop i buffer) (int (length buffer) - int i) of
        Inl e \<Rightarrow> Inl e
      | Inr (argv, r) \<Rightarrow>
          (case count_args argv 0 of
             Inl e \<Rightarrow> Inl e
           | Inr argc \<Rightarrow>
               (case ansi_command c argc argv s of
                  Inl e \<Rightarrow> Inl e
                | Inr s1 \<Rightarrow> Inr (1 + word_of_int r, s1))))"

text \<open>
  The test \<open>buffer[i] == '\x1b' && buffer[i + 1] == '['\<close>. The loop guarantees
  \<open>i < size\<close>; nothing guards the second read, which \<open>&&\<close> evaluates when the first
  comparison holds.
\<close>

definition is_escape :: "byte list \<Rightarrow> nat \<Rightarrow> error + bool" where
  "is_escape buffer i =
     (if buffer ! i = 0x1B
      then (case rd buffer (i + 1) of Inl e \<Rightarrow> Inl e | Inr b \<Rightarrow> Inr (b = 0x5B))
      else Inr False)"

text \<open>Pasting a character: the end of the loop body.\<close>

definition paste_char :: "byte \<Rightarrow> ansi_state \<Rightarrow> ansi_state" where
  "paste_char b s =
     (let s1 = (if sint (a_width s) \<le> sint (a_x s) then s\<lparr>a_x := 0, a_y := a_y s + 1\<rparr> else s);
          s2 = (if sint (a_height s1) \<le> sint (a_y s1)
                then s1\<lparr>a_height := a_y s1 + 1,
                        a_cv := cucul_set_canvas_size (a_cv s1) (a_width s1) (a_y s1 + 1)\<rparr>
                else s1)
      in s2\<lparr>a_cv := cucul_putchar32 (a_cv s2) (a_x s2) (a_y s2) (Cp437 b), a_x := a_x s2 + 1\<rparr>)"

definition SAUCE00 :: "byte list" where
  "SAUCE00 = [0x53, 0x41, 0x55, 0x43, 0x45, 0x30, 0x30]"

text \<open>
  \<open>buffer[i] == '\x1a' && size - i >= 8 && !memcmp(buffer + i + 1, "SAUCE00", 7)\<close>
\<close>

definition at_sauce :: "byte list \<Rightarrow> nat \<Rightarrow> bool" where
  "at_sauce buffer i =
     (buffer ! i = 0x1A \<and> 8 \<le> length buffer - i \<and> take 7 (drop (i + 1) buffer) = SAUCE00)"

text \<open>
  The loop \<open>for(i = 0; i < size; i += skip)\<close>. Outside an escape sequence \<open>skip\<close> is 1;
  in one, \<open>i\<close> has been incremented twice before \<open>skip\<close> is added.
\<close>

function ansi_loop :: "byte list \<Rightarrow> nat \<Rightarrow> ansi_state \<Rightarrow> error + ansi_state" where
  "ansi_loop buffer i s =
     (if i < length buffer then
        (if at_sauce buffer i then Inr s
         else if buffer ! i = 0x0D then ansi_loop buffer (i + 1) s
         else if buffer ! i = 0x0A then ansi_loop buffer (i + 1) (s\<lparr>a_x := 0, a_y := a_y s + 1\<rparr>)
         else
           (case is_escape buffer i of
              Inl e \<Rightarrow> Inl e
            | Inr True \<Rightarrow>
                (case ansi_escape buffer (i + 2) s of
                   Inl e \<Rightarrow> Inl e
                 | Inr (skip, s1) \<Rightarrow> ansi_loop buffer (i + 2 + unat skip) s1)
            | Inr False \<Rightarrow> ansi_loop buffer (i + 1) (paste_char (buffer ! i) s)))
      else Inr s)"
  by pat_completeness auto
termination
  by (relation "measure (\<lambda>(buffer, i, s). length buffer - i)") auto

declare ansi_loop.simps [simp del]

definition ansi_init :: "cucul_canvas \<Rightarrow> ansi_state" where
  "ansi_init cv =
     \<lparr>a_cv = cv, a_x = 0, a_y = 0, a_width = 80, a_height = 25, a_save_x = 0, a_save_y = 0,
      a_fg = CUCUL_COLOR_LIGHTGRAY, a_bg = CUCUL_COLOR_BLACK,
      a_save_fg = CUCUL_COLOR_LIGHTGRAY, a_save_bg = CUCUL_COLOR_BLACK,
      a_bold = 0, a_reverse = 0\<rparr>"

text \<open>
  \<open>ansi_run\<close> is \<open>import_ansi\<close> up to its \<open>return cv\<close>, with the local variables still
  in view; \<open>import_ansi\<close> returns the canvas. As in \<open>import_text\<close>, the new canvas is used
  without a test for NULL.
\<close>

definition ansi_run :: "byte list \<Rightarrow> error + ansi_state" where
  "ansi_run buffer =
     (case cucul_create_canvas 80 25 of
        None \<Rightarrow> Inl NullDereference
      | Some cv0 \<Rightarrow>
          ansi_loop buffer 0
            (ansi_init (cucul_set_color cv0 CUCUL_COLOR_LIGHTGRAY CUCUL_COLOR_BLACK)))"

definition import_ansi :: "byte list \<Rightarrow> error + cucul_canvas" where
  "import_ansi buffer = (case ansi_run buffer of Inl e \<Rightarrow> Inl e | Inr s \<Rightarrow> Inr (a_cv s))"

subsection \<open>cucul_import_canvas: the entry point\<close>

text \<open>
  \<open>strcasecmp(a, b) == 0\<close>: the two strings are equal once upper-case letters are
  lowered.
\<close>

definition tolower_c :: "byte \<Rightarrow> byte" where
  "tolower_c c = (if 0x41 \<le> c \<and> c \<le> 0x5A then c + 32 else c)"

definition strcasecmp_eq :: "string \<Rightarrow> string \<Rightarrow> bool" where
  "strcasecmp_eq a b = (map (tolower_c \<circ> of_char) a = map (tolower_c \<circ> of_char) b)"

text \<open>
  The scan \<open>while(i < size - 1)\<close> of the autodetection for an ESC followed by an opening
  bracket; \<open>size\<close> is not 0 here.
\<close>

function find_escape :: "byte list \<Rightarrow> nat \<Rightarrow> bool" where
  "find_escape buf i =
     (if i < length buf - 1 then
        (if buf ! i = 0x1B \<and> buf ! (i + 1) = 0x5B then True else find_escape buf (i + 1))
      else False)"
  by pat_completeness auto
termination
  by (relation "measure (\<lambda>(buf, i). length buf - i)") auto

declare find_escape.simps [simp del]

text \<open>
  The memory area is \<open>None\<close> for a null pointer. \<open>format\<close> is a C string.
\<close>

fun cucul_import_canvas :: "byte list option \<Rightarrow> string \<Rightarrow> error + cucul_canvas" where
  "cucul_import_canvas None format = Inl NullReturn"
| "cucul_import_canvas (Some buf) format =
     (if length buf = 0 then Inl NullReturn
      else if strcasecmp_eq ''caca'' format then import_caca buf
      else if strcasecmp_eq ''text'' format then import_text buf
      else if strcasecmp_eq ''ansi'' format then import_ansi buf
      else if strcasecmp_eq '''' format then
        (if 4 \<le> length buf \<and> buf ! 0 = 0x43 \<and> buf ! 1 = 0x41 \<and> buf ! 2 = 0x43 \<and> buf ! 3 \<noteq> 0x41
         then import_caca buf
         else if find_escape buf 0 then import_ansi buf
         else import_text buf)
      else Inl NullReturn)"

declare cucul_import_canvas.simps [simp del]

subsection \<open>What a sequence of canvas operations draws\<close>

text \<open>
  The semantics of the canvas operations is fixed by the canvas component, which is not
  among the sources. The definitions of this subsection follow the specification's
  account of it (sections 3 and 6), and serve only to read a decoder's result as a grid
  of cells.
\<close>

datatype cell_attr = NoAttr | ActiveColor byte byte | PackedAttr "32 word"

record grid =
  g_width :: nat
  g_height :: nat
  g_char :: "nat \<Rightarrow> nat \<Rightarrow> glyph"
  g_attr :: "nat \<Rightarrow> nat \<Rightarrow> cell_attr"
  g_fg :: byte
  g_bg :: byte

text \<open>
  Modelled from the spec: the default blank character of a cell that was never written.
  The canvas component that defines it is missing; the model takes the space character.
\<close>

definition blank :: glyph where
  "blank = Utf32 0x20"

text \<open>
  Modelled from the spec: \<open>create(width, height)\<close> of the missing canvas component, a
  grid of \<open>width\<close> by \<open>height\<close> cells, none of them written.
\<close>

definition grid_create :: "nat \<Rightarrow> nat \<Rightarrow> grid" where
  "grid_create w h =
     \<lparr>g_width = w, g_height = h, g_char = (\<lambda>x y. blank), g_attr = (\<lambda>x y. NoAttr),
      g_fg = 0, g_bg = 0\<rparr>"

text \<open>
  Modelled from the spec: \<open>resize(handle, width, height)\<close> of the missing canvas
  component, which "preserves existing cell contents": a cell inside the old and the new
  bounds keeps its content, every other cell is blank.
\<close>

definition grid_resize :: "nat \<Rightarrow> nat \<Rightarrow> grid \<Rightarrow> grid" where
  "grid_resize w h g =
     g\<lparr>g_width := w, g_height := h,
       g_char := (\<lambda>x y. if x < g_width g \<and> y < g_height g \<and> x < w \<and> y < h
                         then g_char g x y else blank),
       g_attr := (\<lambda>x y. if x < g_width g \<and> y < g_height g \<and> x < w \<and> y < h
                         then g_attr g x y else NoAttr)\<rparr>"

text \<open>
  Modelled from the spec: \<open>write character(handle, x, y, codepoint)\<close> of the missing
  canvas component, which "also implicitly applies the active color". The coordinates
  are C \<open>int\<close>s; the spec does not say what a write outside the grid does, the model
  leaves the grid as it is.
\<close>

definition grid_put :: "32 word \<Rightarrow> 32 word \<Rightarrow> glyph \<Rightarrow> grid \<Rightarrow> grid" where
  "grid_put x y ch g =
     (if 0 \<le> sint x \<and> sint x < int (g_width g) \<and> 0 \<le> sint y \<and> sint y < int (g_height g)
      then g\<lparr>g_char := (g_char g)(nat (sint x) := (g_char g (nat (sint x)))(nat (sint y) := ch)),
             g_attr := (g_attr g)(nat (sint x) :=
                          (g_attr g (nat (sint x)))(nat (sint y) := ActiveColor (g_fg g) (g_bg g)))\<rparr>
      else g)"

text \<open>
  Modelled from the spec: the effect of one operation on the grid. The stores of
  \<open>import_caca\<close> address the cells "in row-major order"; \<open>set active color\<close> records the
  pair.
\<close>

fun apply_call :: "cv_call \<Rightarrow> grid \<Rightarrow> grid" where
  "apply_call (CreateCanvas w h) g = grid_create (unat w) (unat h)"
| "apply_call (SetColor fg bg) g = g\<lparr>g_fg := fg, g_bg := bg\<rparr>"
| "apply_call (SetCanvasSize w h) g = grid_resize (unat w) (unat h) g"
| "apply_call (PutChar x y ch) g = grid_put x y (Utf32 (ucast ch)) g"
| "apply_call (PutChar32 x y ch) g = grid_put x y ch g"
| "apply_call (StoreChar n v) g =
     (if unat n < g_width g * g_height g
      then g\<lparr>g_char := (g_char g)(unat n mod g_width g :=
                 (g_char g (unat n mod g_width g))(unat n div g_width g := Utf32 v))\<rparr>
      else g)"
| "apply_call (StoreAttr n v) g =
     (if unat n < g_width g * g_height g
      then g\<lparr>g_attr := (g_attr g)(unat n mod g_width g :=
                 (g_attr g (unat n mod g_width g))(unat n div g_width g := PackedAttr v))\<rparr>
      else g)"

text \<open>Modelled from the spec: the grid that a canvas, a sequence of operations, holds.\<close>

definition canvas_grid :: "cucul_canvas \<Rightarrow> grid" where
  "canvas_grid cv = foldl (\<lambda>g c. apply_call c g) (grid_create 0 0) cv"

subsection \<open>An input with many arguments\<close>

text \<open>
  One escape sequence with 1025 arguments: the two bytes \<open>1;\<close> 1024 times, then \<open>1m\<close>.
  It is the parameter part of the sequence, what follows the ESC and the bracket.
\<close>

definition many_args :: "byte list" where
  "many_args = concat (replicate 1024 [0x31, 0x3B]) @ [0x31, 0x6D]"

subsection \<open>Inputs made of whole sequences\<close>

text \<open>
  \<open>skip_params\<close> drops the bytes of an escape sequence that follow the ESC and the
  bracket, up to and including its final byte, the first byte that \<open>IS_ALPHA\<close> accepts; it
  gives nothing when no such byte is left. \<open>whole_sequences\<close> holds of an input that the
  main loop of \<open>import_ansi\<close> reads as a succession of whole items, each of them either one
  byte, or ESC, bracket, parameter bytes and a final byte that is part of the input. An
  input whose last item is ESC alone, or ESC and a bracket with no final byte after them,
  is not made of whole sequences.
\<close>

fun skip_params :: "byte list \<Rightarrow> byte list option" where
  "skip_params [] = None"
| "skip_params (b # bs) = (if IS_ALPHA b then Some bs else skip_params bs)"

function whole_sequences :: "byte list \<Rightarrow> bool" where
  "whole_sequences [] = True"
| "whole_sequences [b] = (b \<noteq> 0x1B)"
| "whole_sequences (b # c # rest) =
     (if b = 0x1B \<and> c = 0x5B
      then (case skip_params rest of None \<Rightarrow> False | Some tail \<Rightarrow> whole_sequences tail)
      else whole_sequences (c # rest))"
  by pat_completeness auto
termination
proof (relation "measure length")
  show "wf (measure length)" by simp
next
  fix b c :: byte and rest tail :: "byte list"
  assume "skip_params rest = Some tail"
  moreover have "skip_params xs = Some t \<Longrightarrow> length t < length xs" for xs t
    by (induction xs) (auto split: if_splits)
  ultimately have "length tail < length rest" by blast
  then show "(tail, b # c # rest) \<in> measure length" by simp
next
  fix b c :: byte and rest :: "byte list"
  show "(c # rest, b # c # rest) \<in> measure length" by simp
qed

section \<open>Properties\<close>

lemma strcasecmp_empty:
  "\<not> strcasecmp_eq ''caca'' ''''" "\<not> strcasecmp_eq ''text'' ''''"
  "\<not> strcasecmp_eq ''ansi'' ''''" "strcasecmp_eq '''' ''''"
  by (simp_all add: strcasecmp_eq_def)

text \<open>
  C1. A buffer that the autodetection (empty format) hands to the native decoder has at
  least 4 bytes, starts with \<open>'C'\<close>, \<open>'A'\<close>, \<open>'C'\<close> and has a fourth byte other than
  \<open>'A'\<close>. For every such buffer \<open>cucul_import_canvas\<close> returns what \<open>import_caca\<close>
  returns, and that is NULL: the decoder's own test wants the fourth byte to be \<open>'A'\<close>.
  An autodetected native import never succeeds.
\<close>

theorem autodetected_caca_fails:
  assumes "4 \<le> length buf" and "buf ! 0 = 0x43" and "buf ! 1 = 0x41" and "buf ! 2 = 0x43"
    and "buf ! 3 \<noteq> 0x41"
  shows "cucul_import_canvas (Some buf) '''' = import_caca buf \<and> import_caca buf = Inl NullReturn"
proof -
  have a: "import_caca buf = Inl NullReturn"
    using assms(5) by (simp add: import_caca.simps Let_def)
  have "length buf \<noteq> 0" using assms(1) by auto
  then have "cucul_import_canvas (Some buf) '''' = import_caca buf"
    using assms by (simp add: cucul_import_canvas.simps strcasecmp_empty)
  with a show ?thesis by simp
qed

theorem autodetected_caca_fails_witness:
  "cucul_import_canvas (Some [0x43, 0x41, 0x43, 0x42]) '''' = import_caca [0x43, 0x41, 0x43, 0x42]
   \<and> import_caca [0x43, 0x41, 0x43, 0x42] = Inl NullReturn"
  using autodetected_caca_fails [of "[0x43, 0x41, 0x43, 0x42]"] by simp

lemma find_escape_iff:
  "find_escape buf i = (\<exists>k. i \<le> k \<and> k + 1 < length buf \<and> buf ! k = 0x1B \<and> buf ! (k + 1) = 0x5B)"
proof (induction buf i rule: find_escape.induct)
  case (1 buf i)
  show ?case
  proof (cases "i < length buf - 1")
    case False
    then show ?thesis by (auto simp: find_escape.simps [of buf i])
  next
    case True
    show ?thesis
    proof (cases "buf ! i = 0x1B \<and> buf ! (i + 1) = 0x5B")
      case hit: True
      have "i \<le> i \<and> i + 1 < length buf \<and> buf ! i = 0x1B \<and> buf ! (i + 1) = 0x5B"
        using True hit by auto
      then have "\<exists>k. i \<le> k \<and> k + 1 < length buf \<and> buf ! k = 0x1B \<and> buf ! (k + 1) = 0x5B"
        by blast
      then show ?thesis using True hit by (simp add: find_escape.simps [of buf i])
    next
      case miss: False
      have "find_escape buf i = find_escape buf (i + 1)"
        using True miss by (auto simp add: find_escape.simps [of buf i])
      also have "\<dots> = (\<exists>k. i + 1 \<le> k \<and> k + 1 < length buf \<and> buf ! k = 0x1B \<and> buf ! (k + 1) = 0x5B)"
        using "1.IH" True miss by simp
      also have "\<dots> = (\<exists>k. i \<le> k \<and> k + 1 < length buf \<and> buf ! k = 0x1B \<and> buf ! (k + 1) = 0x5B)"
      proof
        assume "\<exists>k. i + 1 \<le> k \<and> k + 1 < length buf \<and> buf ! k = 0x1B \<and> buf ! (k + 1) = 0x5B"
        then obtain k where "i + 1 \<le> k" "k + 1 < length buf" "buf ! k = 0x1B" "buf ! (k + 1) = 0x5B"
          by blast
        then have "i \<le> k \<and> k + 1 < length buf \<and> buf ! k = 0x1B \<and> buf ! (k + 1) = 0x5B" by simp
        then show "\<exists>k. i \<le> k \<and> k + 1 < length buf \<and> buf ! k = 0x1B \<and> buf ! (k + 1) = 0x5B" by blast
      next
        assume "\<exists>k. i \<le> k \<and> k + 1 < length buf \<and> buf ! k = 0x1B \<and> buf ! (k + 1) = 0x5B"
        then obtain k where k: "i \<le> k" "k + 1 < length buf" "buf ! k = 0x1B" "buf ! (k + 1) = 0x5B"
          by blast
        with miss have "k \<noteq> i" by auto
        with k have "i + 1 \<le> k \<and> k + 1 < length buf \<and> buf ! k = 0x1B \<and> buf ! (k + 1) = 0x5B" by simp
        then show "\<exists>k. i + 1 \<le> k \<and> k + 1 < length buf \<and> buf ! k = 0x1B \<and> buf ! (k + 1) = 0x5B" by blast
      qed
      finally show ?thesis .
    qed
  qed
qed

lemma take3_eq:
  "4 \<le> length buf \<Longrightarrow> (take 3 buf = [a, b, c]) = (buf ! 0 = a \<and> buf ! 1 = b \<and> buf ! 2 = c)"
proof -
  assume "4 \<le> length buf"
  then obtain x0 x1 x2 x3 r where "buf = x0 # x1 # x2 # x3 # r"
    by (metis (no_types, opaque_lifting) Suc_le_length_iff numeral_3_eq_3 numeral_eq_Suc pred_numeral_simps(2) semiring_norm(26) semiring_norm(27) eval_nat_numeral(3))
  then show ?thesis by simp
qed

text \<open>
  C4 (as amended). With an empty format and a buffer that is not empty, detection goes in
  strict priority. The buffer is decoded as native binary exactly when it has at least 4
  bytes, its first three bytes are \<open>'C'\<close>, \<open>'A'\<close>, \<open>'C'\<close> and its fourth byte differs
  from \<open>'A'\<close> (the second byte of the signature, not the first); otherwise as ANSI
  exactly when an ESC immediately followed by an opening bracket occurs somewhere in the
  buffer; otherwise as plain text.
\<close>

theorem autodetect_priority:
  assumes "buf \<noteq> []"
  shows "cucul_import_canvas (Some buf) '''' =
     (if 4 \<le> length buf \<and> take 3 buf = [0x43, 0x41, 0x43] \<and> buf ! 3 \<noteq> 0x41 then import_caca buf
      else if (\<exists>i. i + 1 < length buf \<and> buf ! i = 0x1B \<and> buf ! (i + 1) = 0x5B) then import_ansi buf
      else import_text buf)"
proof -
  have "find_escape buf 0 = (\<exists>i. i + 1 < length buf \<and> buf ! i = 0x1B \<and> buf ! (i + 1) = 0x5B)"
    by (simp add: find_escape_iff)
  then show ?thesis
    using assms by (auto simp: cucul_import_canvas.simps strcasecmp_empty take3_eq)
qed

theorem autodetect_priority_witness:
  "cucul_import_canvas (Some [0x58, 0x1B, 0x5B, 0x6D]) '''' = import_ansi [0x58, 0x1B, 0x5B, 0x6D]"
proof -
  have "\<exists>i. i + 1 < length [0x58, 0x1B, 0x5B, 0x6D :: byte]
          \<and> [0x58, 0x1B, 0x5B, 0x6D :: byte] ! i = 0x1B
          \<and> [0x58, 0x1B, 0x5B, 0x6D :: byte] ! (i + 1) = 0x5B"
    by (rule exI [of _ 1]) simp
  then show ?thesis
    using autodetect_priority [of "[0x58, 0x1B, 0x5B, 0x6D]"] by simp
qed

text \<open>
  C4, the claim as it is written, fails on the four bytes \<open>CACA\<close>: the first three bytes
  are the signature and the fourth, \<open>'A'\<close>, differs from the signature's first byte
  \<open>'C'\<close>, yet the buffer is decoded as plain text, and not by the native decoder.
\<close>

theorem autodetect_fourth_byte_counterexample:
  "take 3 [0x43, 0x41, 0x43, 0x41 :: byte] = [0x43, 0x41, 0x43]
   \<and> [0x43, 0x41, 0x43, 0x41 :: byte] ! 3 \<noteq> [0x43, 0x41, 0x43] ! 0
   \<and> cucul_import_canvas (Some [0x43, 0x41, 0x43, 0x41]) '''' = import_text [0x43, 0x41, 0x43, 0x41]
   \<and> cucul_import_canvas (Some [0x43, 0x41, 0x43, 0x41]) '''' \<noteq> import_caca [0x43, 0x41, 0x43, 0x41]"
  by code_simp

text \<open>
  What the tests of \<open>import_caca\<close> do guarantee when a canvas is returned: both
  signatures, a width and a height that are not 0, and a length equal to
  \<open>16 + width * height * 8\<close> modulo \<open>2^32\<close>.
\<close>

lemma import_caca_header:
  assumes "import_caca buf = Inr cv" and "length buf < 2 ^ 32"
  shows "16 \<le> length buf
     \<and> buf ! 0 = 0x43 \<and> buf ! 1 = 0x41 \<and> buf ! 2 = 0x43 \<and> buf ! 3 = 0x41
     \<and> buf ! 4 = 0x43 \<and> buf ! 5 = 0x41 \<and> buf ! 6 = 0x4E \<and> buf ! 7 = 0x56
     \<and> be32 (buf ! 8) (buf ! 9) (buf ! 10) (buf ! 11) \<noteq> 0
     \<and> be32 (buf ! 12) (buf ! 13) (buf ! 14) (buf ! 15) \<noteq> 0
     \<and> length buf =
         (16 + unat (be32 (buf ! 8) (buf ! 9) (buf ! 10) (buf ! 11))
               * unat (be32 (buf ! 12) (buf ! 13) (buf ! 14) (buf ! 15)) * 8) mod 2 ^ 32"
proof -
  let ?w = "be32 (buf ! 8) (buf ! 9) (buf ! 10) (buf ! 11)"
  let ?h = "be32 (buf ! 12) (buf ! 13) (buf ! 14) (buf ! 15)"
  let ?size = "of_nat (length buf) :: 32 word"
  have u: "unat ?size = length buf"
    using assms(2) by (simp add: unat_of_nat)
  from assms(1) have c: "\<not> ?size < 16"
    and m: "buf ! 0 = 0x43 \<and> buf ! 1 = 0x41 \<and> buf ! 2 = 0x43 \<and> buf ! 3 = 0x41
       \<and> buf ! 4 = 0x43 \<and> buf ! 5 = 0x41 \<and> buf ! 6 = 0x4E \<and> buf ! 7 = 0x56"
    and z: "?w \<noteq> 0 \<and> ?h \<noteq> 0" and e: "?size = 16 + ?w * ?h * 8"
    by (simp_all add: import_caca.simps Let_def split: if_splits)
  from c have "16 \<le> unat ?size" by (simp add: word_less_nat_alt)
  then have l: "16 \<le> length buf" using u by simp
  have "unat ?size = unat (16 + ?w * ?h * 8)" using e by simp
  also have "\<dots> = (16 + unat ?w * unat ?h * 8) mod 2 ^ 32"
    by (simp add: unat_word_ariths mod_simps)
  finally have "length buf = (16 + unat ?w * unat ?h * 8) mod 2 ^ 32" using u by simp
  then show ?thesis using l m z by simp
qed

text \<open>
  C5. The claim asks for a total length of exactly \<open>16 + width * height * 8\<close>. The test of
  the code, \<open>size != 16 + width * height * 8\<close>, is computed in 32 bits. A 16-byte input
  with both signatures, width 65536 and height 65536 passes every test (the product wraps
  to 0) and a canvas of 65536 by 65536 cells is returned, although the length is not
  \<open>16 + 65536 * 65536 * 8\<close>.
\<close>

theorem import_caca_accepts_wrapped_size:
  "import_caca [0x43, 0x41, 0x43, 0x41, 0x43, 0x41, 0x4E, 0x56, 0, 1, 0, 0, 0, 1, 0, 0]
     = Inr [CreateCanvas 65536 65536]"
  by code_simp

lemma nbr_string_1:
  "nbr 0 = Some b \<Longrightarrow> b \<noteq> 0 \<Longrightarrow> nbr (Suc 0) = Some 0 \<Longrightarrow> nbr_string nbr 0 = Inr [b]"
  by (simp add: nbr_string.simps [of nbr 0] nbr_string.simps [of nbr "Suc 0"])

lemma atoi_digit_1: "atoi [0x31] = 1"
  by (simp add: atoi_def isspace_c_def isdigit_c_def)

lemma pt_pair:
  assumes "int (Suc i) < sz" and "Suc i < length buffer"
    and "buffer ! i = 0x31" and "buffer ! Suc i = 0x3B" and "t < 1024"
  shows "parse_tuple_loop buffer sz i 0 t nbr ret =
     (if Suc t < 1024
      then parse_tuple_loop buffer sz (i + 2) 0 (Suc t)
             (nbr(0 \<mapsto> 0x31, Suc 0 \<mapsto> 0)) (ret(t \<mapsto> 1, Suc t \<mapsto> END_ARG))
      else Inl (ArgvOutOfBounds (Suc t)))"
proof -
  have a: "atoi_nbr (nbr(0 \<mapsto> 0x31, Suc 0 \<mapsto> 0)) = Inr 1"
    by (simp add: atoi_nbr_def nbr_string_1 atoi_digit_1)
  have r0: "rd buffer i = Inr 0x31" and r1: "rd buffer (Suc i) = Inr 0x3B"
    using assms by (simp_all add: rd_def)
  have "parse_tuple_loop buffer sz i 0 t nbr ret =
          parse_tuple_loop buffer sz (Suc i) (Suc 0) t (nbr(0 \<mapsto> 0x31, Suc 0 \<mapsto> 0)) ret"
    using assms(1)
    by (simp add: parse_tuple_loop.simps [of buffer sz i 0 t] r0 IS_ALPHA_def nbr_store_def)
  also have "\<dots> =
     (if Suc t < 1024
      then parse_tuple_loop buffer sz (i + 2) 0 (Suc t)
             (nbr(0 \<mapsto> 0x31, Suc 0 \<mapsto> 0)) (ret(t \<mapsto> 1, Suc t \<mapsto> END_ARG))
      else Inl (ArgvOutOfBounds (Suc t)))"
    using assms(1,5)
    by (simp add: parse_tuple_loop.simps [of buffer sz "Suc i" "Suc 0" t] r1 IS_ALPHA_def
        a argv_store_def)
  finally show ?thesis .
qed

lemma pt_pairs:
  assumes "\<forall>k<n. buffer ! (i + 2 * k) = 0x31 \<and> buffer ! Suc (i + 2 * k) = 0x3B"
    and "i + 2 * n \<le> length buffer" and "int (i + 2 * n) \<le> sz" and "t + n < 1024"
  shows "\<exists>nbr' ret'. parse_tuple_loop buffer sz i 0 t nbr ret =
           parse_tuple_loop buffer sz (i + 2 * n) 0 (t + n) nbr' ret'"
  using assms
proof (induction n arbitrary: i t nbr ret)
  case 0
  then show ?case by auto
next
  case (Suc n)
  have first: "buffer ! i = 0x31" "buffer ! Suc i = 0x3B"
    using Suc.prems(1) by force+
  have step: "parse_tuple_loop buffer sz i 0 t nbr ret =
       parse_tuple_loop buffer sz (i + 2) 0 (Suc t)
         (nbr(0 \<mapsto> 0x31, Suc 0 \<mapsto> 0)) (ret(t \<mapsto> 1, Suc t \<mapsto> END_ARG))"
    using pt_pair [of i sz buffer t nbr ret] first Suc.prems(2,3,4) by simp
  have rest: "\<forall>k<n. buffer ! (i + 2 + 2 * k) = 0x31 \<and> buffer ! Suc (i + 2 + 2 * k) = 0x3B"
  proof (intro allI impI)
    fix k assume "k < n"
    then have "Suc k < Suc n" by simp
    with Suc.prems(1) have "buffer ! (i + 2 * Suc k) = 0x31 \<and> buffer ! Suc (i + 2 * Suc k) = 0x3B"
      by blast
    then show "buffer ! (i + 2 + 2 * k) = 0x31 \<and> buffer ! Suc (i + 2 + 2 * k) = 0x3B"
      by (simp add: add.commute add.left_commute)
  qed
  have "\<exists>nbr' ret'. parse_tuple_loop buffer sz (i + 2) 0 (Suc t)
           (nbr(0 \<mapsto> 0x31, Suc 0 \<mapsto> 0)) (ret(t \<mapsto> 1, Suc t \<mapsto> END_ARG)) =
           parse_tuple_loop buffer sz (i + 2 + 2 * n) 0 (Suc t + n) nbr' ret'"
  proof -
    have c1: "i + 2 + 2 * n \<le> length buffer" using Suc.prems(2) by simp
    have c2: "int (i + 2 + 2 * n) \<le> sz" using Suc.prems(3) by simp
    have c3: "Suc t + n < 1024" using Suc.prems(4) by simp
    show ?thesis by (rule Suc.IH [OF rest c1 c2 c3])
  qed
  then show ?case using step by (simp add: add.commute add.left_commute)
qed

lemma nth_pairs:
  "k < n \<Longrightarrow> (concat (replicate n [a, b]) @ r) ! (2 * k) = a
            \<and> (concat (replicate n [a, b]) @ r) ! Suc (2 * k) = b"
proof (induction n arbitrary: k)
  case 0
  then show ?case by simp
next
  case (Suc n)
  show ?case
  proof (cases k)
    case 0
    then show ?thesis by simp
  next
    case (Suc k')
    with Suc.prems have "k' < n" by simp
    from Suc.IH [OF this] show ?thesis using Suc by simp
  qed
qed

lemma length_pairs: "length (concat (replicate n [a, b])) = 2 * n"
  by (induction n) simp_all

lemma parse_tuple_many_args: "parse_tuple Map.empty many_args 2050 = Inl (ArgvOutOfBounds 1024)"
proof -
  let ?ret0 = "[0 \<mapsto> END_ARG]"
  have len: "length many_args = 2050" by (simp add: many_args_def length_pairs)
  have nth: "\<forall>k<1024. many_args ! (2 * k) = 0x31 \<and> many_args ! Suc (2 * k) = 0x3B"
    unfolding many_args_def using nth_pairs [of _ 1024 "0x31" "0x3B" "[0x31, 0x6D]"] by blast
  have "\<forall>k<1023. many_args ! (0 + 2 * k) = 0x31 \<and> many_args ! Suc (0 + 2 * k) = 0x3B"
    using nth by simp
  from pt_pairs [OF this, of 2050 0 Map.empty ?ret0] len
  obtain nbr' ret' where a: "parse_tuple_loop many_args 2050 0 0 0 Map.empty ?ret0 =
      parse_tuple_loop many_args 2050 2046 0 1023 nbr' ret'"
    by auto
  have "many_args ! (2 * 1023) = 0x31 \<and> many_args ! Suc (2 * 1023) = 0x3B"
    using nth [rule_format, of 1023] by simp
  then have b: "parse_tuple_loop many_args 2050 2046 0 1023 nbr' ret' = Inl (ArgvOutOfBounds 1024)"
    using pt_pair [of 2046 2050 many_args 1023 nbr' ret'] len by simp
  show ?thesis by (simp add: parse_tuple_def argv_store_def a b)
qed

text \<open>
  C6. The 1024-entry array \<open>argv\<close> can be exceeded. On the escape sequence
  ESC, bracket, \<open>1;\<close> 1024 times, \<open>1m\<close> (1025 values separated by semicolons),
  \<open>parse_tuple\<close> stores at index 1024 of the array: the bounds-checked store of the model
  fails there, in \<open>parse_tuple\<close> alone and in \<open>import_ansi\<close> on the whole input.
\<close>

theorem argv_overflow_reachable:
  "parse_tuple Map.empty (concat (replicate 1024 [0x31, 0x3B]) @ [0x31, 0x6D]) 2050
     = Inl (ArgvOutOfBounds 1024)
   \<and> import_ansi ([0x1B, 0x5B] @ concat (replicate 1024 [0x31, 0x3B]) @ [0x31, 0x6D])
     = Inl (ArgvOutOfBounds 1024)"
proof -
  let ?b = "0x1B # 0x5B # many_args"
  have len: "length many_args = 2050" by (simp add: many_args_def length_pairs)
  have p: "parse_tuple Map.empty (drop 2 ?b) (int (length ?b) - int 2) = Inl (ArgvOutOfBounds 1024)"
    using parse_tuple_many_args len by simp
  have e: "ansi_escape ?b 2 s = Inl (ArgvOutOfBounds 1024)" for s
    using p by (simp add: ansi_escape_def Let_def)
  have e': "ansi_escape ?b (Suc (Suc 0)) s = Inl (ArgvOutOfBounds 1024)" for s
    using e [of s] by (simp add: numeral_2_eq_2)
  have "is_escape ?b 0 = Inr True" by (simp add: is_escape_def rd_def)
  then have "ansi_loop ?b 0 s = Inl (ArgvOutOfBounds 1024)" for s
    by (simp add: ansi_loop.simps [of ?b 0] at_sauce_def e')
  then have "import_ansi ?b = Inl (ArgvOutOfBounds 1024)"
    by (simp add: import_ansi_def ansi_run_def cucul_create_canvas_def)
  then show ?thesis using parse_tuple_many_args by (simp add: many_args_def)
qed

text \<open>
  C7. The claim says that no read of the input uses an index beyond \<open>size - 1\<close>. On the
  one-byte input ESC the test \<open>buffer[i] == '\x1b' && buffer[i + 1] == '['\<close> reads index 1,
  which is \<open>size\<close>. So it does at index 4 on the four bytes ESC, bracket, \<open>m\<close>, ESC,
  which the autodetection hands to the ANSI decoder.
\<close>

theorem import_ansi_reads_past_end:
  "import_ansi [0x1B] = Inl (ReadOutOfBounds 1)
   \<and> cucul_import_canvas (Some [0x1B, 0x5B, 0x6D, 0x1B]) '''' = Inl (ReadOutOfBounds 4)"
  by code_simp

lemma sint_sub_no_wrap:
  assumes "0 \<le> sint (y :: 32 word)" and "uint (n :: 32 word) < 2 ^ 31"
  shows "sint (y - n) = sint y - uint n"
proof -
  have "signed_take_bit 31 (uint n) = uint n"
  proof (rule signed_take_bit_int_eq_self)
    have "- (2 ^ 31) \<le> (0 :: int)" by simp
    also have "0 \<le> uint n" by simp
    finally show "- (2 ^ 31) \<le> uint n" .
    show "uint n < 2 ^ 31" using assms(2) .
  qed
  then have n: "sint n = uint n"
    by (simp add: sint_uint)
  have y: "sint y < 2147483648" using sint_lt [of y] by simp
  have u: "0 \<le> uint n" "uint n < 2147483648" using assms(2) by simp_all
  have "- 2147483648 \<le> sint y - uint n" "sint y - uint n < 2147483648"
    using assms(1) y u by linarith+
  then have "- (2 ^ 31) \<le> sint y - sint n" "sint y - sint n < 2 ^ 31"
    using n by simp_all
  then show ?thesis
    using n by (simp add: sint_word_ariths signed_take_bit_int_eq_self)
qed

text \<open>
  C8 (as amended). A cursor-up command (final byte \<open>'A'\<close>) with argument \<open>n\<close> (the first
  argument, or 1 when there is none) sets the row to \<open>y - n\<close> computed in 32 bits, and to 0
  when that is negative as an \<open>int\<close>. So the row is never negative after the command, and
  it is \<open>max(0, y - n)\<close> whenever the row before is not negative and \<open>n\<close> is below \<open>2^31\<close>.
  The same holds for cursor-left (final byte \<open>'D'\<close>) and the column.
\<close>

theorem cursor_up_left_clamped:
  assumes "arg_or_1 argc argv = Inr n"
  shows "(\<exists>s'. ansi_command 0x41 argc argv s = Inr s'
            \<and> 0 \<le> sint (a_y s') \<and> a_x s' = a_x s
            \<and> a_y s' = (if sint (a_y s - n) < 0 then 0 else a_y s - n)
            \<and> (0 \<le> sint (a_y s) \<and> uint n < 2 ^ 31
                 \<longrightarrow> sint (a_y s') = max 0 (sint (a_y s) - uint n)))
       \<and> (\<exists>s'. ansi_command 0x44 argc argv s = Inr s'
            \<and> 0 \<le> sint (a_x s') \<and> a_y s' = a_y s
            \<and> a_x s' = (if sint (a_x s - n) < 0 then 0 else a_x s - n)
            \<and> (0 \<le> sint (a_x s) \<and> uint n < 2 ^ 31
                 \<longrightarrow> sint (a_x s') = max 0 (sint (a_x s) - uint n)))"
  using assms by (auto simp: ansi_command_def Let_def sint_sub_no_wrap)

theorem cursor_up_left_clamped_witness:
  "arg_or_1 1 [0 \<mapsto> 7] = Inr 7
   \<and> (\<exists>s'. ansi_command 0x41 1 [0 \<mapsto> 7] ((ansi_init [])\<lparr>a_y := 5\<rparr>) = Inr s' \<and> a_y s' = 0)
   \<and> (\<exists>s'. ansi_command 0x44 1 [0 \<mapsto> 7] ((ansi_init [])\<lparr>a_x := 9\<rparr>) = Inr s' \<and> a_x s' = 2)"
proof -
  have h: "arg_or_1 1 [0 \<mapsto> 7] = Inr 7" by (simp add: arg_or_1_def argv_load_def)
  show ?thesis
    using h cursor_up_left_clamped [OF h, of "(ansi_init [])\<lparr>a_y := 5\<rparr>"]
      cursor_up_left_clamped [OF h, of "(ansi_init [])\<lparr>a_x := 9\<rparr>"]
    by (auto simp: ansi_init_def)
qed

text \<open>
  C8, the claim as it is written, fails where the subtraction wraps around. The command
  \<open>ESC [ -2147483647 H\<close> leaves the row at \<open>-2147483648\<close> (the cursor-position command
  does not clamp); a cursor-up by 1 then sets the row to \<open>2147483647\<close>, and not to
  \<open>max(0, -2147483648 - 1) = 0\<close>.
\<close>

theorem cursor_up_wraps_counterexample:
  "ansi_run [0x1B, 0x5B, 0x2D, 0x32, 0x31, 0x34, 0x37, 0x34, 0x38, 0x33, 0x36, 0x34, 0x37, 0x48]
     = Inr ((ansi_init [CreateCanvas 80 25, SetColor 7 0])\<lparr>a_y := 0x80000000\<rparr>)
   \<and> sint (0x80000000 :: 32 word) = - 2147483648
   \<and> ansi_run [0x1B, 0x5B, 0x2D, 0x32, 0x31, 0x34, 0x37, 0x34, 0x38, 0x33, 0x36, 0x34, 0x37, 0x48,
                0x1B, 0x5B, 0x31, 0x41]
     = Inr ((ansi_init [CreateCanvas 80 25, SetColor 7 0])\<lparr>a_y := 0x7FFFFFFF\<rparr>)
   \<and> sint (0x7FFFFFFF :: 32 word) = 2147483647
   \<and> max 0 (- 2147483648 - 1) \<noteq> (2147483647 :: int)"
  by code_simp












lemma plain_is_whole: "0x1B \<notin> set pre \<Longrightarrow> whole_sequences pre"
  by (induction pre rule: whole_sequences.induct) auto




text \<open>
  C10. The eight bytes \<open>A\<close>, newline, \<open>BB\<close>, newline, \<open>CCC\<close>, decoded as plain text, give a
  canvas which, read as a grid, is 3 columns wide and 3 rows tall; row 0 holds \<open>A\<close>,
  row 1 \<open>BB\<close>, row 2 \<open>CCC\<close>, and the three cells never written hold the blank character.
\<close>

theorem text_example:
  "\<exists>cv. import_text [0x41, 0x0A, 0x42, 0x42, 0x0A, 0x43, 0x43, 0x43] = Inr cv
     \<and> g_width (canvas_grid cv) = 3 \<and> g_height (canvas_grid cv) = 3
     \<and> g_char (canvas_grid cv) 0 0 = Utf32 0x41
     \<and> g_char (canvas_grid cv) 1 0 = blank
     \<and> g_char (canvas_grid cv) 2 0 = blank
     \<and> g_char (canvas_grid cv) 0 1 = Utf32 0x42
     \<and> g_char (canvas_grid cv) 1 1 = Utf32 0x42
     \<and> g_char (canvas_grid cv) 2 1 = blank
     \<and> g_char (canvas_grid cv) 0 2 = Utf32 0x43
     \<and> g_char (canvas_grid cv) 1 2 = Utf32 0x43
     \<and> g_char (canvas_grid cv) 2 2 = Utf32 0x43"
proof -
  define cv :: cucul_canvas where
    "cv = [CreateCanvas 1 1, SetColor CUCUL_COLOR_DEFAULT CUCUL_COLOR_TRANSPARENT,
           PutChar 0 0 0x41, SetCanvasSize 1 2, PutChar 0 1 0x42,
           SetCanvasSize 2 2, PutChar 1 1 0x42, SetCanvasSize 2 3, PutChar 0 2 0x43,
           PutChar 1 2 0x43, SetCanvasSize 3 3, PutChar 2 2 0x43]"
  have "import_text [0x41, 0x0A, 0x42, 0x42, 0x0A, 0x43, 0x43, 0x43] = Inr cv"
    unfolding cv_def by code_simp
  moreover have "g_width (canvas_grid cv) = 3" unfolding cv_def by code_simp
  moreover have "g_height (canvas_grid cv) = 3" unfolding cv_def by code_simp
  moreover have "g_char (canvas_grid cv) 0 0 = Utf32 0x41" unfolding cv_def by code_simp
  moreover have "g_char (canvas_grid cv) 1 0 = blank" unfolding cv_def by code_simp
  moreover have "g_char (canvas_grid cv) 2 0 = blank" unfolding cv_def by code_simp
  moreover have "g_char (canvas_grid cv) 0 1 = Utf32 0x42" unfolding cv_def by code_simp
  moreover have "g_char (canvas_grid cv) 1 1 = Utf32 0x42" unfolding cv_def by code_simp
  moreover have "g_char (canvas_grid cv) 2 1 = blank" unfolding cv_def by code_simp
  moreover have "g_char (canvas_grid cv) 0 2 = Utf32 0x43" unfolding cv_def by code_simp
  moreover have "g_char (canvas_grid cv) 1 2 = Utf32 0x43" unfolding cv_def by code_simp
  moreover have "g_char (canvas_grid cv) 2 2 = Utf32 0x43" unfolding cv_def by code_simp
  ultimately show ?thesis by blast
qed

subsection \<open>The SGR command\<close>

lemma rd_drop: "i < length buffer \<Longrightarrow> rd (drop i buffer) 0 = Inr (buffer ! i)"
  by (simp add: rd_def)

lemma is_alpha_m: "IS_ALPHA 0x6D"
  by (simp add: IS_ALPHA_def)

lemma escape_m:
  assumes "i < length buffer" and "buffer ! i = 0x6D"
  shows "ansi_escape buffer i s = Inr (1, set_sgr_color s)"
proof -
  have c: "find_final buffer i = 0x6D"
    using assms by (simp add: find_final.simps [of buffer i] is_alpha_m)
  have p: "parse_tuple Map.empty (drop i buffer) (int (length buffer) - int i)
             = Inr ([0 \<mapsto> END_ARG], 0)"
    using assms
    by (simp add: parse_tuple_def argv_store_def parse_tuple_loop.simps [of _ _ 0 0 0]
        rd_drop is_alpha_m)
  have n: "count_args [0 \<mapsto> END_ARG] 0 = Inr 0"
    by (simp add: count_args.simps [of _ 0])
  have m: "ansi_command 0x6D 0 [0 \<mapsto> END_ARG] s = Inr (set_sgr_color s)"
    by (simp add: ansi_command_def apply_modifiers.simps [of _ 0 0])
  show ?thesis by (simp add: ansi_escape_def c p n m)
qed

text \<open>One decimal digit b, of value v, between the bracket and the m.\<close>

lemma escape_digit_m:
  assumes "i + 1 < length buffer" and "buffer ! i = b" and "buffer ! (i + 1) = 0x6D"
    and "\<not> IS_ALPHA b" and "b \<noteq> 0x3B" and "b \<noteq> 0" and "atoi [b] = v" and "v \<noteq> END_ARG"
  shows "ansi_escape buffer i s = Inr (2, set_sgr_color (manage_modifiers v s))"
proof -
  have c: "find_final buffer i = 0x6D"
    using assms(1,2,3,4)
    by (simp add: find_final.simps [of buffer i] find_final.simps [of buffer "Suc i"] is_alpha_m)
  have r0: "rd (drop i buffer) 0 = Inr b" using assms by (simp add: rd_def)
  have r1: "rd (drop i buffer) (Suc 0) = Inr 0x6D" using assms by (simp add: rd_def)
  have a: "atoi_nbr [0 \<mapsto> b, Suc 0 \<mapsto> 0] = Inr v"
    using assms(6,7) by (simp add: atoi_nbr_def nbr_string_1)
  have "\<exists>argv. parse_tuple Map.empty (drop i buffer) (int (length buffer) - int i) = Inr (argv, 1)
           \<and> argv 0 = Some v \<and> argv (Suc 0) = Some END_ARG"
    using assms(1,4,5)
    by (simp add: parse_tuple_def argv_store_def parse_tuple_loop.simps [of _ _ 0 0 0]
        parse_tuple_loop.simps [of _ _ "Suc 0" "Suc 0" 0]
        r0 r1 is_alpha_m nbr_store_def a)
  then obtain argv where p: "parse_tuple Map.empty (drop i buffer) (int (length buffer) - int i) = Inr (argv, 1)"
    and a0: "argv 0 = Some v" and a1: "argv (Suc 0) = Some END_ARG" by blast
  have n: "count_args argv 0 = Inr (Suc 0)"
    using a0 a1 assms(8) by (simp add: count_args.simps [of _ 0] count_args.simps [of _ "Suc 0"])
  have cm: "ansi_command 0x6D (Suc 0) argv s = Inr (set_sgr_color (manage_modifiers v s))"
    using a0
    by (simp add: ansi_command_def apply_modifiers.simps [of _ 0 "Suc 0"]
        apply_modifiers.simps [of _ "Suc 0" "Suc 0"] argv_load_def)
  show ?thesis by (simp add: ansi_escape_def c p n cm)
qed

lemma loop_escape:
  assumes "i + 1 < length buffer" and "buffer ! i = 0x1B" and "buffer ! (i + 1) = 0x5B"
    and "ansi_escape buffer (i + 2) s = Inr (skip, s1)"
  shows "ansi_loop buffer i s = ansi_loop buffer (i + 2 + unat skip) s1"
proof -
  have "is_escape buffer i = Inr True" using assms(1,2,3) by (simp add: is_escape_def rd_def)
  moreover have "\<not> at_sauce buffer i" using assms(2) by (simp add: at_sauce_def)
  moreover have "ansi_escape buffer (Suc (Suc i)) s = Inr (skip, s1)" using assms(4) by simp
  ultimately show ?thesis
    using assms(1,2) by (simp add: ansi_loop.simps [of buffer i])
qed

lemma sgr_fields:
  "a_bold (set_sgr_color s) = a_bold s" "a_reverse (set_sgr_color s) = a_reverse s"
  "a_save_fg (set_sgr_color s) = a_save_fg s" "a_save_bg (set_sgr_color s) = a_save_bg s"
  "a_fg (set_sgr_color s) = (if a_bold s \<noteq> 0 \<and> a_fg s < 8 then a_fg s + 8 else a_fg s)"
  "a_bg (set_sgr_color s) = (if a_bold s \<noteq> 0 \<and> a_bg s < 8 then a_bg s + 8 else a_bg s)"
  by (simp_all add: set_sgr_color_def Let_def)

text \<open>
  An SGR command with an empty parameter tuple (ESC, bracket, \<open>m\<close>): \<open>argc\<close> is 0, the
  loop of case \<open>m\<close> calls \<open>manage_modifiers\<close> for no code, and the colour is set from the
  state as it is. Bold, reverse and the saved pair keep their values.
\<close>

lemma sgr_empty_applies_no_code:
  assumes "i + 2 < length buffer" and "buffer ! i = 0x1B" and "buffer ! (i + 1) = 0x5B"
    and "buffer ! (i + 2) = 0x6D"
  shows "ansi_loop buffer i s = ansi_loop buffer (i + 3) (set_sgr_color s)
     \<and> a_bold (set_sgr_color s) = a_bold s \<and> a_reverse (set_sgr_color s) = a_reverse s
     \<and> a_save_fg (set_sgr_color s) = a_save_fg s \<and> a_save_bg (set_sgr_color s) = a_save_bg s
     \<and> a_fg (set_sgr_color s) = (if a_bold s \<noteq> 0 \<and> a_fg s < 8 then a_fg s + 8 else a_fg s)
     \<and> a_bg (set_sgr_color s) = (if a_bold s \<noteq> 0 \<and> a_bg s < 8 then a_bg s + 8 else a_bg s)"
proof -
  have "ansi_escape buffer (i + 2) s = Inr (1, set_sgr_color s)"
    using assms(1,4) by (rule escape_m)
  then have "ansi_loop buffer i s = ansi_loop buffer (i + 2 + unat (1 :: 32 word)) (set_sgr_color s)"
    using assms(1,2,3) by (intro loop_escape) simp_all
  moreover have "i + 2 + unat (1 :: 32 word) = i + 3" by simp
  ultimately have l: "ansi_loop buffer i s = ansi_loop buffer (i + 3) (set_sgr_color s)"
    by (simp only:)
  show ?thesis using l by (simp only: sgr_fields simp_thms)
qed

text \<open>
  For comparison, ESC, bracket, \<open>0m\<close> applies code 0 before the colour is set.
\<close>

lemma sgr_zero_resets:
  assumes "i + 3 < length buffer" and "buffer ! i = 0x1B" and "buffer ! (i + 1) = 0x5B"
    and "buffer ! (i + 2) = 0x30" and "buffer ! (i + 3) = 0x6D"
  shows "ansi_loop buffer i s = ansi_loop buffer (i + 4) (set_sgr_color (manage_modifiers 0 s))"
proof -
  have "ansi_escape buffer (i + 2) s = Inr (2, set_sgr_color (manage_modifiers 0 s))"
  proof (rule escape_digit_m [where b = "0x30"])
    show "i + 2 + 1 < length buffer" using assms(1) by simp
    show "buffer ! (i + 2) = 0x30" by (rule assms(4))
    have "i + 2 + 1 = i + 3" by simp
    then show "buffer ! (i + 2 + 1) = 0x6D" using assms(5) by (simp only:)
    show "\<not> IS_ALPHA 0x30" by (simp add: IS_ALPHA_def)
    show "atoi [0x30] = 0" by (simp add: atoi_def isspace_c_def isdigit_c_def)
    show "(0 :: 32 word) \<noteq> END_ARG" by (simp add: END_ARG_def)
  qed simp_all
  then have "ansi_loop buffer i s
      = ansi_loop buffer (i + 2 + unat (2 :: 32 word)) (set_sgr_color (manage_modifiers 0 s))"
    using assms(1,2,3) by (intro loop_escape) simp_all
  moreover have "i + 2 + unat (2 :: 32 word) = i + 4" by simp
  ultimately show ?thesis by (simp only:)
qed

text \<open>
  C2. The claim is that ESC, bracket, \<open>m\<close> is treated as the single code 0, exactly as
  ESC, bracket, \<open>0m\<close>. The code does not do so. After a bold command, ESC, bracket, \<open>m\<close>
  leaves bold on and the colours at bright white on dark gray (15 and 8), where ESC,
  bracket, \<open>0m\<close> turns bold off and sets both colours to the default colour. The cursor
  commands of the same \<open>switch\<close> supply the value of an absent parameter (\<open>argc ? argv[0] : 1\<close>,
  and the case 0 of the cursor position); case \<open>m\<close> alone supplies none.
\<close>

theorem sgr_empty_is_not_reset:
  "ansi_run [0x1B, 0x5B, 0x31, 0x6D, 0x1B, 0x5B, 0x6D]
     = Inr ((ansi_init [CreateCanvas 80 25, SetColor 7 0, SetColor 15 8, SetColor 15 8])
              \<lparr>a_fg := 15, a_bg := 8, a_bold := 1\<rparr>)
   \<and> ansi_run [0x1B, 0x5B, 0x31, 0x6D, 0x1B, 0x5B, 0x30, 0x6D]
     = Inr ((ansi_init [CreateCanvas 80 25, SetColor 7 0, SetColor 15 8, SetColor 16 16])
              \<lparr>a_fg := CUCUL_COLOR_DEFAULT, a_bg := CUCUL_COLOR_DEFAULT, a_bold := 0\<rparr>)"
  by code_simp

lemma sgr_canvas:
  "a_cv (set_sgr_color s) =
     (if a_reverse s \<noteq> 0
      then cucul_set_color (a_cv s) (a_bg (set_sgr_color s)) (a_fg (set_sgr_color s))
      else cucul_set_color (a_cv s) (a_fg (set_sgr_color s)) (a_bg (set_sgr_color s)))"
  by (simp add: set_sgr_color_def Let_def)

lemma promoted_not_base:
  assumes "(x :: byte) < 8"
  shows "8 \<le> x + 8"
proof -
  have "unat x < 8" using assms by (simp add: word_less_nat_alt)
  then have "unat (x + 8) = unat x + 8" by (simp add: unat_word_ariths)
  then show ?thesis by (simp add: word_le_nat_alt)
qed

lemma sgr_promoted:
  "a_bold (set_sgr_color s) \<noteq> 0 \<Longrightarrow> 8 \<le> a_fg (set_sgr_color s) \<and> 8 \<le> a_bg (set_sgr_color s)"
  by (auto simp: sgr_fields promoted_not_base)

text \<open>
  C3 (as amended). \<open>manage_modifiers\<close> with code 1 changes the bold flag only. The
  promotion by 8 of a base colour (index below 8) is made by the SGR command itself, on
  the variables \<open>fg\<close> and \<open>bg\<close> of the decoder, at the end of every SGR command, whatever
  its codes and their number, when bold is set after its codes have been applied, and
  before the colour is handed to the canvas, which receives the promoted pair. Every SGR command (ESC, bracket, parameters,
  \<open>m\<close>) that is decoded without a fault leaves the loop with the state \<open>set_sgr_color\<close> makes
  of the state after the codes: whenever bold is set in it, the stored foreground and
  background are both 8 or more, and that promoted pair is what a later code 8 saves.
\<close>

theorem bold_promotes_stored_colors:
  assumes "i + 1 < length buffer" and "buffer ! i = 0x1B" and "buffer ! (i + 1) = 0x5B"
    and "find_final buffer (i + 2) = 0x6D"
    and "ansi_escape buffer (i + 2) s = Inr (skip, s')"
  shows "manage_modifiers 1 s = s\<lparr>a_bold := 1\<rparr>
     \<and> ansi_loop buffer i s = ansi_loop buffer (i + 2 + unat skip) s'
     \<and> (\<exists>argv r argc s1.
            parse_tuple Map.empty (drop (i + 2) buffer) (int (length buffer) - int (i + 2))
              = Inr (argv, r)
          \<and> count_args argv 0 = Inr argc
          \<and> apply_modifiers argv 0 argc s = Inr s1
          \<and> s' = set_sgr_color s1
          \<and> a_bold s' = a_bold s1
          \<and> a_fg s' = (if a_bold s1 \<noteq> 0 \<and> a_fg s1 < 8 then a_fg s1 + 8 else a_fg s1)
          \<and> a_bg s' = (if a_bold s1 \<noteq> 0 \<and> a_bg s1 < 8 then a_bg s1 + 8 else a_bg s1)
          \<and> a_cv s' = (if a_reverse s1 \<noteq> 0
                       then cucul_set_color (a_cv s1) (a_bg s') (a_fg s')
                       else cucul_set_color (a_cv s1) (a_fg s') (a_bg s')))
     \<and> (a_bold s' \<noteq> 0 \<longrightarrow> 8 \<le> a_fg s' \<and> 8 \<le> a_bg s')
     \<and> a_save_fg (manage_modifiers 8 s') = a_fg s'
     \<and> a_save_bg (manage_modifiers 8 s') = a_bg s'"
proof -
  have m: "manage_modifiers 1 s = s\<lparr>a_bold := 1\<rparr>"
    by (simp add: manage_modifiers_def)
  have l: "ansi_loop buffer i s = ansi_loop buffer (i + 2 + unat skip) s'"
    using assms(1,2,3,5) by (rule loop_escape)
  from assms(5) obtain argv r argc where
    p: "parse_tuple Map.empty (drop (i + 2) buffer) (int (length buffer) - int (i + 2))
          = Inr (argv, r)"
    and n: "count_args argv 0 = Inr argc"
    and c: "ansi_command 0x6D argc argv s = Inr s'"
    unfolding ansi_escape_def assms(4) Let_def
    by (auto split: sum.splits prod.splits)
  from c obtain s1 where a: "apply_modifiers argv 0 argc s = Inr s1"
    and e: "s' = set_sgr_color s1"
    by (auto simp: ansi_command_def split: sum.splits)
  have x: "\<exists>argv r argc s1.
            parse_tuple Map.empty (drop (i + 2) buffer) (int (length buffer) - int (i + 2))
              = Inr (argv, r)
          \<and> count_args argv 0 = Inr argc
          \<and> apply_modifiers argv 0 argc s = Inr s1
          \<and> s' = set_sgr_color s1
          \<and> a_bold s' = a_bold s1
          \<and> a_fg s' = (if a_bold s1 \<noteq> 0 \<and> a_fg s1 < 8 then a_fg s1 + 8 else a_fg s1)
          \<and> a_bg s' = (if a_bold s1 \<noteq> 0 \<and> a_bg s1 < 8 then a_bg s1 + 8 else a_bg s1)
          \<and> a_cv s' = (if a_reverse s1 \<noteq> 0
                       then cucul_set_color (a_cv s1) (a_bg s') (a_fg s')
                       else cucul_set_color (a_cv s1) (a_fg s') (a_bg s'))"
    using p n a sgr_fields(1,5,6) [of s1] sgr_canvas [of s1] unfolding e by blast
  have g: "a_bold s' \<noteq> 0 \<longrightarrow> 8 \<le> a_fg s' \<and> 8 \<le> a_bg s'"
    unfolding e using sgr_promoted [of s1] by blast
  have v: "a_save_fg (manage_modifiers 8 s') = a_fg s'" "a_save_bg (manage_modifiers 8 s') = a_bg s'"
    by (simp_all add: manage_modifiers_def)
  show ?thesis using m l x g v by (intro conjI)
qed

theorem bold_promotes_stored_colors_witness:
  "ansi_loop [0x1B, 0x5B, 0x31, 0x3B, 0x33, 0x31, 0x6D] 0 (ansi_init [])
     = ansi_loop [0x1B, 0x5B, 0x31, 0x3B, 0x33, 0x31, 0x6D] 7
         ((ansi_init [SetColor 12 8])\<lparr>a_bold := 1, a_fg := 12, a_bg := 8\<rparr>)
   \<and> ansi_loop [0x1B, 0x5B, 0x33, 0x31, 0x6D] 0 ((ansi_init [])\<lparr>a_bold := 1\<rparr>)
     = ansi_loop [0x1B, 0x5B, 0x33, 0x31, 0x6D] 5
         ((ansi_init [SetColor 12 8])\<lparr>a_bold := 1, a_fg := 12, a_bg := 8\<rparr>)"
proof -
  let ?b = "[0x1B, 0x5B, 0x31, 0x3B, 0x33, 0x31, 0x6D] :: byte list"
  let ?c = "[0x1B, 0x5B, 0x33, 0x31, 0x6D] :: byte list"
  let ?s' = "(ansi_init [SetColor 12 8])\<lparr>a_bold := 1, a_fg := 12, a_bg := 8\<rparr>"
  have f1: "find_final ?b (0 + 2) = 0x6D" by code_simp
  have e1: "ansi_escape ?b (0 + 2) (ansi_init []) = Inr (5, ?s')" by code_simp
  have f2: "find_final ?c (0 + 2) = 0x6D" by code_simp
  have e2: "ansi_escape ?c (0 + 2) ((ansi_init [])\<lparr>a_bold := 1\<rparr>) = Inr (3, ?s')" by code_simp
  have "ansi_loop ?b 0 (ansi_init []) = ansi_loop ?b (0 + 2 + unat (5 :: 32 word)) ?s'"
    using bold_promotes_stored_colors [OF _ _ _ f1 e1] by simp
  moreover have "ansi_loop ?c 0 ((ansi_init [])\<lparr>a_bold := 1\<rparr>)
      = ansi_loop ?c (0 + 2 + unat (3 :: 32 word)) ?s'"
    using bold_promotes_stored_colors [OF _ _ _ f2 e2] by simp
  ultimately show ?thesis by simp
qed

text \<open>
  C3, the claim as it is written, fails on ESC, bracket, \<open>1m\<close>: the stored foreground
  goes from 7 to 15 and the background from 0 to 8; a following code 8 saves the pair 15
  and 8, the promoted colours, and not the base colours.
\<close>

theorem bold_saved_counterexample:
  "ansi_run [0x1B, 0x5B, 0x31, 0x6D]
     = Inr ((ansi_init [CreateCanvas 80 25, SetColor 7 0, SetColor 15 8])
              \<lparr>a_fg := 15, a_bg := 8, a_bold := 1\<rparr>)
   \<and> ansi_run [0x1B, 0x5B, 0x31, 0x6D, 0x1B, 0x5B, 0x38, 0x6D]
     = Inr ((ansi_init [CreateCanvas 80 25, SetColor 7 0, SetColor 15 8, SetColor 32 32])
              \<lparr>a_fg := CUCUL_COLOR_TRANSPARENT, a_bg := CUCUL_COLOR_TRANSPARENT,
                a_save_fg := 15, a_save_bg := 8, a_bold := 1\<rparr>)"
  by code_simp

end
